theory Spec2Isabelle
  imports Complex_Main "HOL-Library.Sublist" "HOL-Library.Multiset" "HOL-Library.Product_Lexorder"
begin

section \<open>Python values used by the pipeline\<close>

text \<open>
  Python \<open>str\<close> values are modelled as \<open>string\<close> (lists of 8-bit characters), Python's
  unbounded \<open>int\<close> as \<open>int\<close>, and Python \<open>float\<close> values as exact rationals: every
  comparison and sum below is the one the source writes, carried out without rounding
  error. Exceptions the interpreter can raise in the modelled functions are values of
  \<open>py_error\<close>.
\<close>

datatype py_error = IndexError | ZeroDivisionError

text \<open>\<open>str.upper()\<close> on the ASCII letters; every other character is left unchanged.\<close>

definition upper_char :: "char \<Rightarrow> char" where
  "upper_char c =
     (case map_of (zip ''abcdefghijklmnopqrstuvwxyz'' ''ABCDEFGHIJKLMNOPQRSTUVWXYZ'') c of
        Some u \<Rightarrow> u
      | None \<Rightarrow> c)"

definition upper :: "string \<Rightarrow> string" where
  "upper s = map upper_char s"

text \<open>
  Python slicing \<open>s[a:b]\<close>: a negative bound counts from the end, and both bounds are
  clamped to the string.
\<close>

definition slice_index :: "nat \<Rightarrow> int \<Rightarrow> nat" where
  "slice_index n i = (if i < 0 then nat (max 0 (int n + i)) else min n (nat i))"

definition py_slice :: "'a list \<Rightarrow> int \<Rightarrow> int \<Rightarrow> 'a list" where
  "py_slice s a b =
     (let lo = slice_index (length s) a; hi = slice_index (length s) b
      in take (hi - lo) (drop lo s))"

text \<open>\<open>s[a:]\<close>, the slice with the upper bound left out.\<close>

definition py_slice_from :: "'a list \<Rightarrow> int \<Rightarrow> 'a list" where
  "py_slice_from s a = drop (slice_index (length s) a) s"

text \<open>Python indexing \<open>s[i]\<close> for a non-negative literal index: out of range raises.\<close>

definition py_index :: "'a list \<Rightarrow> nat \<Rightarrow> py_error + 'a" where
  "py_index s i = (if i < length s then Inr (s ! i) else Inl IndexError)"

text \<open>\<open>base * k\<close> for a one-character string: the empty string when \<open>k \<le> 0\<close>.\<close>

definition py_repeat :: "char \<Rightarrow> int \<Rightarrow> string" where
  "py_repeat base k = replicate (nat k) base"

text \<open>\<open>sub in s\<close> on strings is the contiguous-substring test \<^const>\<open>sublist\<close>.\<close>

text \<open>\<open>s.count(c)\<close> for a one-character string \<open>c\<close>.\<close>

definition py_count :: "string \<Rightarrow> char \<Rightarrow> nat" where
  "py_count s c = length (filter (\<lambda>x. x = c) s)"

text \<open>
  \<open>float / float\<close>: division by zero raises. \<open>int(x)\<close> truncates towards zero.
  \<open>round(x, 1)\<close> rounds to one decimal, a tie going to the even neighbour.
\<close>

definition py_truediv :: "rat \<Rightarrow> rat \<Rightarrow> py_error + rat" where
  "py_truediv a b = (if b = 0 then Inl ZeroDivisionError else Inr (a / b))"

definition py_int :: "rat \<Rightarrow> int" where
  "py_int x = (if 0 \<le> x then \<lfloor>x\<rfloor> else \<lceil>x\<rceil>)"

definition py_round1 :: "rat \<Rightarrow> rat" where
  "py_round1 x =
     (let y = x * 10; f = \<lfloor>y\<rfloor>; d = y - of_int f
      in of_int (if d < 1/2 then f else if 1/2 < d then f + 1
                 else if even f then f else f + 1) / 10)"

text \<open>
  \<open>Seq(s).reverse_complement()\<close> of Biopython, called on an upper-cased string:
  the string is reversed and each symbol replaced by its complement in the ambiguous DNA
  table; a symbol outside the table is kept.
\<close>

definition complement_char :: "char \<Rightarrow> char" where
  "complement_char c =
     (case map_of (zip ''ACGTUMRWSYKVHDBXN'' ''TGCAAKYWSRMBDHVXN'') c of
        Some d \<Rightarrow> d
      | None \<Rightarrow> c)"

definition reverse_complement :: "string \<Rightarrow> string" where
  "reverse_complement s = rev (map complement_char s)"

section \<open>Guide entity (guide.py)\<close>

record guide =
  sequence :: string
  pam :: string
  chromosome :: string
  start :: int
  end_pos :: int
  strand :: string
  efficiency_score :: rat
  off_targets :: "int \<rightharpoonup> int"
  gc_content :: rat
  gene_name :: "string option"
  exon :: "int option"

text \<open>The dataclass constructor with its defaults for the fields not passed.\<close>

definition Guide :: "string \<Rightarrow> string \<Rightarrow> string \<Rightarrow> int \<Rightarrow> int \<Rightarrow> string \<Rightarrow> guide" where
  "Guide sq pm chrom st en sd =
     \<lparr> sequence = sq, pam = pm, chromosome = chrom, start = st, end_pos = en, strand = sd,
       efficiency_score = 0,
       off_targets = [0 \<mapsto> 0, 1 \<mapsto> 0, 2 \<mapsto> 0, 3 \<mapsto> 0],
       gc_content = 0, gene_name = None, exon = None \<rparr>"

definition full_sequence :: "guide \<Rightarrow> string" where
  "full_sequence g = sequence g @ pam g"

text \<open>
  \<open>calculate_gc_content\<close> stores the percentage in the guide; on an empty sequence it
  returns 0.0 and leaves the field as it was.
\<close>

definition calculate_gc_content :: "guide \<Rightarrow> guide" where
  "calculate_gc_content g =
     (if sequence g = [] then g
      else let gc_count = py_count (sequence g) CHR ''G'' + py_count (sequence g) CHR ''C''
           in g\<lparr>gc_content := (of_nat gc_count / of_nat (length (sequence g))) * 100\<rparr>)"

definition passes_quality_filters :: "guide \<Rightarrow> rat \<Rightarrow> rat \<Rightarrow> int \<Rightarrow> bool" where
  "passes_quality_filters g min_gc max_gc max_homopolymer =
     (if gc_content g < min_gc \<or> gc_content g > max_gc then False
      else if list_ex (\<lambda>base. sublist (py_repeat base max_homopolymer) (sequence g)) ''ATGC''
        then False
      else if sublist ''TTTT'' (sequence g) then False
      else True)"

section \<open>Motif scanner (extract.py)\<close>

text \<open>
  \<open>re.finditer('[ATCG]GG', s)\<close>: the matches are found left to right and do not
  overlap; after a match at \<open>i\<close> the search resumes at \<open>i + 3\<close>.
\<close>

fun finditer_NGG :: "nat \<Rightarrow> string \<Rightarrow> nat list" where
  "finditer_NGG i (a # b # c # rest) =
     (if a \<in> set ''ATCG'' \<and> b = CHR ''G'' \<and> c = CHR ''G''
      then i # finditer_NGG (i + 3) rest
      else finditer_NGG (i + 1) (b # c # rest))"
| "finditer_NGG i s = []"

definition find_pam_sites :: "string \<Rightarrow> string \<Rightarrow> int list" where
  "find_pam_sites sq pam_type =
     (let s = upper sq
      in if pam_type = ''SpCas9'' then map int (finditer_NGG 0 s) else [])"

definition extract_guide_sequence :: "string \<Rightarrow> int \<Rightarrow> int \<Rightarrow> string \<Rightarrow> string option" where
  "extract_guide_sequence sq pam_position guide_length sd =
     (let s = upper sq
      in if sd = ''+'' then
           (let guide_start = pam_position - guide_length; guide_end = pam_position
            in if guide_start < 0 then None
               else let guide_seq = py_slice s guide_start guide_end
                    in if int (length guide_seq) \<noteq> guide_length then None
                       else if \<not> list_all (\<lambda>base. base \<in> set ''ATCG'') guide_seq then None
                       else Some guide_seq)
         else
           (let guide_start = pam_position + 3; guide_end = guide_start + guide_length
            in if guide_end > int (length s) then None
               else let guide_seq = reverse_complement (py_slice s guide_start guide_end)
                    in if int (length guide_seq) \<noteq> guide_length then None
                       else if \<not> list_all (\<lambda>base. base \<in> set ''ATCG'') guide_seq then None
                       else Some guide_seq))"

text \<open>
  The tail shared by both loops of \<open>extract_guides\<close>: compute the GC content, attach a
  non-empty gene name, and append the guide unless filtering is on and it fails the
  default quality filters (GC in [40, 60], homopolymer threshold 4).
\<close>

definition finish_guide :: "string option \<Rightarrow> bool \<Rightarrow> guide \<Rightarrow> guide list \<Rightarrow> guide list" where
  "finish_guide gene apply_filters g0 guides =
     (let g1 = calculate_gc_content g0;
          g2 = (if gene \<noteq> None \<and> gene \<noteq> Some [] then g1\<lparr>gene_name := gene\<rparr> else g1)
      in if apply_filters
         then (if passes_quality_filters g2 40 60 4 then guides @ [g2] else guides)
         else guides @ [g2])"

text \<open>The plus-strand loop over the PAM positions of the input.\<close>

fun plus_loop ::
  "string \<Rightarrow> string \<Rightarrow> int \<Rightarrow> string option \<Rightarrow> int \<Rightarrow> bool \<Rightarrow> int list \<Rightarrow> guide list \<Rightarrow> guide list"
where
  "plus_loop s chrom start_position gene guide_length apply_filters [] guides = guides"
| "plus_loop s chrom start_position gene guide_length apply_filters (pam_pos # rest) guides =
     (case extract_guide_sequence s pam_pos guide_length ''+'' of
        None \<Rightarrow> plus_loop s chrom start_position gene guide_length apply_filters rest guides
      | Some guide_seq \<Rightarrow>
          (let pam_seq = py_slice s pam_pos (pam_pos + 3);
               guide_start = start_position + pam_pos - guide_length;
               guide_end = start_position + pam_pos - 1;
               g = Guide guide_seq pam_seq chrom guide_start guide_end ''+''
           in plus_loop s chrom start_position gene guide_length apply_filters rest
                (finish_guide gene apply_filters g guides)))"

text \<open>
  The minus-strand loop over the PAM positions of the reverse complement \<open>rc\<close>;
  \<open>n\<close> is the length of the (upper-cased) input.
\<close>

fun minus_loop ::
  "string \<Rightarrow> int \<Rightarrow> string \<Rightarrow> int \<Rightarrow> string option \<Rightarrow> int \<Rightarrow> bool \<Rightarrow> int list \<Rightarrow> guide list
     \<Rightarrow> guide list"
where
  "minus_loop rc n chrom start_position gene guide_length apply_filters [] guides = guides"
| "minus_loop rc n chrom start_position gene guide_length apply_filters (pam_pos # rest) guides =
     (let original_pam_pos = n - pam_pos - 3
      in case extract_guide_sequence rc pam_pos guide_length ''+'' of
           None \<Rightarrow> minus_loop rc n chrom start_position gene guide_length apply_filters rest guides
         | Some guide_seq \<Rightarrow>
             (let pam_seq = py_slice rc pam_pos (pam_pos + 3);
                  guide_start = start_position + original_pam_pos + 4;
                  guide_end = start_position + original_pam_pos + 3 + guide_length;
                  g = Guide guide_seq pam_seq chrom guide_start guide_end ''-''
              in minus_loop rc n chrom start_position gene guide_length apply_filters rest
                   (finish_guide gene apply_filters g guides)))"

definition extract_guides ::
  "string \<Rightarrow> string \<Rightarrow> int \<Rightarrow> string option \<Rightarrow> string \<Rightarrow> int \<Rightarrow> bool \<Rightarrow> guide list"
where
  "extract_guides sq chrom start_position gene pam_type guide_length apply_filters =
     (let s = upper sq;
          pam_positions = find_pam_sites s pam_type;
          guides = plus_loop s chrom start_position gene guide_length apply_filters
                     pam_positions [];
          rev_comp_seq = reverse_complement s;
          pam_positions_rev = find_pam_sites rev_comp_seq pam_type
      in minus_loop rev_comp_seq (int (length s)) chrom start_position gene guide_length
           apply_filters pam_positions_rev guides)"

section \<open>Efficiency estimator (predict.py)\<close>

definition score_gc_content :: "rat \<Rightarrow> rat" where
  "score_gc_content gc =
     (let optimal_gc = 50; deviation = \<bar>gc - optimal_gc\<bar>
      in if deviation \<le> 10 then 10 - deviation else - (deviation - 10) * (1/2))"

definition score_position_preferences :: "string \<Rightarrow> py_error + rat" where
  "score_position_preferences s =
     (let score = 0
      in case (if length s \<ge> 20
               then (case py_index s 18 of
                       Inl e \<Rightarrow> Inl e
                     | Inr c18 \<Rightarrow>
                         (let score = (if c18 = CHR ''G'' then score + 2 else score)
                          in case py_index s 19 of
                               Inl e \<Rightarrow> Inl e
                             | Inr c19 \<Rightarrow> Inr (if c19 = CHR ''G'' then score + 2 else score)))
               else Inr score) of
           Inl e \<Rightarrow> Inl e
         | Inr score \<Rightarrow>
             (case py_index s 0 of
                Inl e \<Rightarrow> Inl e
              | Inr c0 \<Rightarrow> Inr (if c0 = CHR ''C'' then score + 1 else score)))"

definition score_seed_region :: "string \<Rightarrow> py_error + rat" where
  "score_seed_region seed_sequence =
     (let gc_count = py_count seed_sequence CHR ''G'' + py_count seed_sequence CHR ''C''
      in case py_truediv (of_nat gc_count) (of_nat (length seed_sequence)) of
           Inl e \<Rightarrow> Inl e
         | Inr gc_ratio \<Rightarrow>
             (let score = (if 2/5 \<le> gc_ratio \<and> gc_ratio \<le> 3/5 then 3 else - 2)
              in Inr (if sublist ''TTT'' seed_sequence then score - 5 else score)))"

definition score_pam_proximal :: "string \<Rightarrow> py_error + rat" where
  "score_pam_proximal pam_proximal =
     (let gc_count = py_count pam_proximal CHR ''G'' + py_count pam_proximal CHR ''C''
      in case py_truediv (of_nat gc_count) (of_nat (length pam_proximal)) of
           Inl e \<Rightarrow> Inl e
         | Inr gc_ratio \<Rightarrow> Inr (if gc_ratio \<ge> 1/2 then 2 else - 1))"

definition penalize_homopolymers :: "string \<Rightarrow> rat" where
  "penalize_homopolymers s =
     fold (\<lambda>base penalty.
             (let p3 = (if sublist (py_repeat base 3) s then penalty - 2 else penalty);
                  p4 = (if sublist (py_repeat base 4) s then p3 - 5 else p3)
              in if sublist (py_repeat base 5) s then p4 - 10 else p4))
          ''ATGC'' 0"

text \<open>
  \<open>predict_efficiency\<close> (its \<open>context_sequence\<close> argument is never read and is left
  out). The features are evaluated in the source's order, so the first failing index or
  division decides which exception is raised.
\<close>

definition predict_efficiency :: "guide \<Rightarrow> py_error + rat" where
  "predict_efficiency g =
     (let score = 50; sq = sequence g;
          score = score + score_gc_content (gc_content g)
      in case score_position_preferences sq of
           Inl e \<Rightarrow> Inl e
         | Inr position_score \<Rightarrow>
        (let score = score + position_score
         in case score_seed_region (py_slice sq 0 12) of
              Inl e \<Rightarrow> Inl e
            | Inr seed_score \<Rightarrow>
           (let score = score + seed_score
            in case score_pam_proximal (py_slice_from sq (- 8)) of
                 Inl e \<Rightarrow> Inl e
               | Inr pam_proximal_score \<Rightarrow>
              (let score = score + pam_proximal_score;
                   score = score + penalize_homopolymers sq
               in case py_index sq 19 of
                    Inl e \<Rightarrow> Inl e
                  | Inr c19 \<Rightarrow>
                      (let score = (if c19 = CHR ''G'' then score + 2 else score);
                           score = max 0 (min 100 score)
                       in Inr (py_round1 score))))))"

section \<open>Off-target estimator (offtarget.py)\<close>

text \<open>
  \<open>random.randint(a, b)\<close> reads and advances the generator's state: the randomness
  source is a function from the bounds and the state to the drawn integer and the next
  state. A stub that always draws \<open>c\<close> leaves the state alone.
\<close>

type_synonym 'r randint = "int \<Rightarrow> int \<Rightarrow> 'r \<Rightarrow> int \<times> 'r"

definition stub_randint :: "int \<Rightarrow> 'r randint" where
  "stub_randint c a b r = (c, r)"

definition calculate_complexity :: "string \<Rightarrow> py_error + rat" where
  "calculate_complexity s =
     (let k = 4;
          kmers = set (map (\<lambda>i. py_slice s (int i) (int i + k)) [0 ..< nat (int (length s) - k + 1)]);
          max_kmers = min (4 ^ 4) (int (length s) - k + 1)
      in case py_truediv (of_nat (card kmers)) (of_int max_kmers) of
           Inl e \<Rightarrow> Inl e
         | Inr complexity \<Rightarrow>
        (let gc_count = py_count s CHR ''G'' + py_count s CHR ''C''
         in case py_truediv (of_nat gc_count) (of_nat (length s)) of
              Inl e \<Rightarrow> Inl e
            | Inr gc_ratio \<Rightarrow>
                (let complexity = (if gc_ratio < 3/10 \<or> gc_ratio > 7/10
                                   then complexity * (4/5) else complexity)
                 in Inr (fold (\<lambda>base c. if sublist (py_repeat base 4) s then c * (7/10) else c)
                           ''ATGC'' complexity))))"

definition estimate_count :: "'r randint \<Rightarrow> int \<Rightarrow> int \<Rightarrow> 'r \<Rightarrow> int \<times> 'r" where
  "estimate_count randint min_val max_val r =
     (let (noise, r') = randint (- 2) 2 r
      in (py_int (of_int (min_val + max_val) / 2 + of_int noise), r'))"

text \<open>
  \<open>search_off_targets\<close> (its \<open>max_mismatches\<close> argument is never read and is left out).
  The complexity is computed before any draw, so an exception leaves the generator as it
  was; otherwise the three counts are drawn in the order 1, 2, 3.
\<close>

definition fill_counts ::
  "'r randint \<Rightarrow> (int \<times> int) \<Rightarrow> (int \<times> int) \<Rightarrow> (int \<times> int) \<Rightarrow> (int \<rightharpoonup> int) \<Rightarrow> 'r
     \<Rightarrow> (int \<rightharpoonup> int) \<times> 'r"
where
  "fill_counts randint b1 b2 b3 off r =
     (let (c1, r1) = estimate_count randint (fst b1) (snd b1) r;
          off = off(1 \<mapsto> c1);
          (c2, r2) = estimate_count randint (fst b2) (snd b2) r1;
          off = off(2 \<mapsto> c2);
          (c3, r3) = estimate_count randint (fst b3) (snd b3) r2;
          off = off(3 \<mapsto> c3)
      in (off, r3))"

definition search_off_targets ::
  "'r randint \<Rightarrow> guide \<Rightarrow> 'r \<Rightarrow> (py_error + (int \<rightharpoonup> int)) \<times> 'r"
where
  "search_off_targets randint g r =
     (let off = [0 \<mapsto> 1, 1 \<mapsto> 0, 2 \<mapsto> 0, 3 \<mapsto> 0]
      in case calculate_complexity (sequence g) of
           Inl e \<Rightarrow> (Inl e, r)
         | Inr complexity \<Rightarrow>
             (let (off', r') =
                    (if complexity < 1/2 then fill_counts randint (5, 15) (20, 50) (80, 200) off r
                     else if complexity < 7/10 then fill_counts randint (1, 5) (5, 20) (20, 80) off r
                     else fill_counts randint (0, 3) (2, 10) (10, 40) off r)
              in (Inr off', r')))"

section \<open>Ranker (rank.py)\<close>

definition dict_get :: "('k \<rightharpoonup> 'v) \<Rightarrow> 'k \<Rightarrow> 'v \<Rightarrow> 'v" where
  "dict_get d k dflt = (case d k of None \<Rightarrow> dflt | Some v \<Rightarrow> v)"

text \<open>
  The key of \<open>rank_guides\<close>. Python compares the tuples lexicographically, which is the
  order of the product type here. \<open>sorted\<close> is a stable sort, as \<^const>\<open>sort_key\<close> is.
\<close>

definition rank_sort_key :: "guide \<Rightarrow> rat \<times> int \<times> int" where
  "rank_sort_key g =
     (let efficiency = - efficiency_score g;
          critical_offtargets =
            dict_get (off_targets g) 0 0 + dict_get (off_targets g) 1 0
              + dict_get (off_targets g) 2 0;
          position = start g
      in (efficiency, critical_offtargets, position))"

definition rank_guides :: "guide list \<Rightarrow> guide list" where
  "rank_guides guides = sort_key rank_sort_key guides"

section \<open>The quality filter as the specification words it\<close>

text \<open>
  A homopolymer run of \<open>base\<close> of length at least \<open>k\<close> in \<open>s\<close>: for some \<open>n \<ge> k\<close>, \<open>n\<close>
  consecutive symbols of \<open>s\<close> are all \<open>base\<close>. No run is longer than \<open>s\<close>, so the search for
  \<open>n\<close> is bounded by the length of \<open>s\<close>.
\<close>

definition has_homopolymer_run :: "char \<Rightarrow> int \<Rightarrow> string \<Rightarrow> bool" where
  "has_homopolymer_run base k s =
     list_ex (\<lambda>n. k \<le> int n \<and> sublist (replicate n base) s) [0 ..< Suc (length s)]"

section \<open>The count ranges as the specification words them\<close>

text \<open>
  The \<open>(min, max)\<close> range of the count at mismatch level \<open>k\<close> (1, 2 or 3) for a complexity
  score: low below 0.5, medium below 0.7, high otherwise.
\<close>

definition spec_count_range :: "rat \<Rightarrow> int \<Rightarrow> int \<times> int" where
  "spec_count_range complexity k =
     (if complexity < 1/2 then (if k = 1 then (5, 15) else if k = 2 then (20, 50) else (80, 200))
      else if complexity < 7/10 then (if k = 1 then (1, 5) else if k = 2 then (5, 20) else (20, 80))
      else (if k = 1 then (0, 3) else if k = 2 then (2, 10) else (10, 40)))"

section \<open>Properties of the motif scanner\<close>

lemma length_upper [simp]: "length (upper s) = length s"
  by (simp add: upper_def)

lemma length_reverse_complement [simp]: "length (reverse_complement s) = length s"
  by (simp add: reverse_complement_def)

lemma upper_char_idem [simp]: "upper_char (upper_char c) = upper_char c"
  by (simp add: upper_char_def)

lemma upper_idem [simp]: "upper (upper s) = upper s"
  by (simp add: upper_def)

lemma find_pam_sites_upper [simp]: "find_pam_sites (upper s) t = find_pam_sites s t"
  by (simp add: find_pam_sites_def)

text \<open>A match of the three-symbol pattern lies inside the scanned string.\<close>

lemma finditer_NGG_bound:
  "p \<in> set (finditer_NGG i s) \<Longrightarrow> i \<le> p \<and> p + 3 \<le> i + length s"
proof (induction i s rule: finditer_NGG.induct)
  case (1 i a b c rest)
  then show ?case by (auto split: if_splits)
qed auto

lemma find_pam_sites_bound:
  assumes "p \<in> set (find_pam_sites s pam_type)"
  shows "0 \<le> p \<and> p + 3 \<le> int (length s)"
proof -
  from assms obtain q where q: "q \<in> set (finditer_NGG 0 (upper s))" and p: "p = int q"
    by (auto simp: find_pam_sites_def split: if_splits)
  from finditer_NGG_bound[OF q] have "q + 3 \<le> length s" by simp
  with p show ?thesis by simp
qed

lemma extract_guide_sequence_plus_Some:
  assumes "extract_guide_sequence s p gl ''+'' = Some w"
  shows "0 \<le> p - gl \<and> int (length w) = gl \<and> w = py_slice (upper s) (p - gl) p"
  using assms by (auto simp: extract_guide_sequence_def Let_def split: if_splits)

text \<open>
  The shared tail of the loops appends at most one guide, and that guide has the
  sequence, PAM, chromosome, coordinates and strand it was constructed with.
\<close>

lemma finish_guide_cases:
  assumes "g \<in> set (finish_guide gene af g0 acc)"
  shows "g \<in> set acc \<or>
         (sequence g = sequence g0 \<and> pam g = pam g0 \<and> chromosome g = chromosome g0 \<and>
          start g = start g0 \<and> end_pos g = end_pos g0 \<and> strand g = strand g0)"
  using assms
  by (auto simp: finish_guide_def calculate_gc_content_def Let_def split: if_splits)

lemma plus_loop_cases:
  "g \<in> set (plus_loop s chrom sp gene gl af ps acc) \<Longrightarrow>
     g \<in> set acc \<or>
     (\<exists>p \<in> set ps. extract_guide_sequence s p gl ''+'' = Some (sequence g) \<and>
        pam g = py_slice s p (p + 3) \<and> chromosome g = chrom \<and>
        start g = sp + p - gl \<and> end_pos g = sp + p - 1 \<and> strand g = ''+'')"
proof (induction ps arbitrary: acc)
  case Nil
  then show ?case by simp
next
  case (Cons p ps)
  show ?case
  proof (cases "extract_guide_sequence s p gl ''+''")
    case None
    with Cons.prems have "g \<in> set (plus_loop s chrom sp gene gl af ps acc)" by simp
    from Cons.IH[OF this] show ?thesis by auto
  next
    case (Some w)
    let ?g0 = "Guide w (py_slice s p (p + 3)) chrom (sp + p - gl) (sp + p - 1) ''+''"
    from Cons.prems Some
    have "g \<in> set (plus_loop s chrom sp gene gl af ps (finish_guide gene af ?g0 acc))"
      by (simp add: Let_def)
    from Cons.IH[OF this] show ?thesis
    proof
      assume "g \<in> set (finish_guide gene af ?g0 acc)"
      from finish_guide_cases[OF this] Some show ?thesis
        by (auto simp: Guide_def)
    qed auto
  qed
qed

lemma minus_loop_cases:
  "g \<in> set (minus_loop rc n chrom sp gene gl af ps acc) \<Longrightarrow>
     g \<in> set acc \<or>
     (\<exists>p \<in> set ps. extract_guide_sequence rc p gl ''+'' = Some (sequence g) \<and>
        pam g = py_slice rc p (p + 3) \<and> chromosome g = chrom \<and>
        start g = sp + (n - p - 3) + 4 \<and> end_pos g = sp + (n - p - 3) + 3 + gl \<and>
        strand g = ''-'')"
proof (induction ps arbitrary: acc)
  case Nil
  then show ?case by simp
next
  case (Cons p ps)
  show ?case
  proof (cases "extract_guide_sequence rc p gl ''+''")
    case None
    with Cons.prems have "g \<in> set (minus_loop rc n chrom sp gene gl af ps acc)" by simp
    from Cons.IH[OF this] show ?thesis by auto
  next
    case (Some w)
    let ?g0 = "Guide w (py_slice rc p (p + 3)) chrom (sp + (n - p - 3) + 4)
                 (sp + (n - p - 3) + 3 + gl) ''-''"
    from Cons.prems Some
    have "g \<in> set (minus_loop rc n chrom sp gene gl af ps (finish_guide gene af ?g0 acc))"
      by (simp add: Let_def)
    from Cons.IH[OF this] show ?thesis
    proof
      assume "g \<in> set (finish_guide gene af ?g0 acc)"
      from finish_guide_cases[OF this] Some show ?thesis
        by (auto simp: Guide_def)
    qed auto
  qed
qed

text \<open>
  Every emitted guide stems from a PAM hit of one of the two scans, with the fields the
  corresponding loop computes.
\<close>

lemma extract_guides_cases:
  assumes "g \<in> set (extract_guides sq chrom sp gene pam_type gl af)"
  shows "(\<exists>p \<in> set (find_pam_sites sq pam_type).
            extract_guide_sequence (upper sq) p gl ''+'' = Some (sequence g) \<and>
            pam g = py_slice (upper sq) p (p + 3) \<and> chromosome g = chrom \<and>
            start g = sp + p - gl \<and> end_pos g = sp + p - 1 \<and> strand g = ''+'')
       \<or> (\<exists>p \<in> set (find_pam_sites (reverse_complement (upper sq)) pam_type).
            extract_guide_sequence (reverse_complement (upper sq)) p gl ''+'' = Some (sequence g) \<and>
            pam g = py_slice (reverse_complement (upper sq)) p (p + 3) \<and> chromosome g = chrom \<and>
            start g = sp + (int (length sq) - p - 3) + 4 \<and>
            end_pos g = sp + (int (length sq) - p - 3) + 3 + gl \<and> strand g = ''-'')"
proof -
  let ?s = "upper sq" and ?rc = "reverse_complement (upper sq)"
  from assms have "g \<in> set (minus_loop ?rc (int (length ?s)) chrom sp gene gl af
      (find_pam_sites ?rc pam_type)
      (plus_loop ?s chrom sp gene gl af (find_pam_sites sq pam_type) []))"
    by (simp add: extract_guides_def Let_def)
  from minus_loop_cases[OF this] show ?thesis
  proof
    assume "g \<in> set (plus_loop ?s chrom sp gene gl af (find_pam_sites sq pam_type) [])"
    from plus_loop_cases[OF this] show ?thesis by auto
  next
    assume "\<exists>p\<in>set (find_pam_sites ?rc pam_type).
       extract_guide_sequence ?rc p gl ''+'' = Some (sequence g) \<and>
       pam g = py_slice ?rc p (p + 3) \<and> chromosome g = chrom \<and>
       start g = sp + (int (length ?s) - p - 3) + 4 \<and>
       end_pos g = sp + (int (length ?s) - p - 3) + 3 + gl \<and> strand g = ''-''"
    then show ?thesis by simp
  qed
qed

lemma plus_loop_no_window:
  "\<forall>p \<in> set ps. extract_guide_sequence s p gl ''+'' = None \<Longrightarrow>
     plus_loop s chrom sp gene gl af ps acc = acc"
  by (induction ps arbitrary: acc) auto

lemma minus_loop_no_window:
  "\<forall>p \<in> set ps. extract_guide_sequence rc p gl ''+'' = None \<Longrightarrow>
     minus_loop rc n chrom sp gene gl af ps acc = acc"
  by (induction ps arbitrary: acc) auto

lemma short_input_no_window:
  assumes "p \<in> set (find_pam_sites s pam_type)" and "int (length s) < gl + 3"
  shows "extract_guide_sequence s p gl ''+'' = None"
proof -
  from find_pam_sites_bound[OF assms(1)] assms(2) have "p - gl < 0" by simp
  then show ?thesis by (simp add: extract_guide_sequence_def Let_def)
qed

text \<open>
  Claim C1. Every minus-strand guide returned by \<open>extract_guides\<close> comes from a PAM hit
  at some index \<open>rc_i\<close> of the reverse complement, and with
  \<open>orig_i = len(sequence) - rc_i - 3\<close> its start is \<open>start_position + orig_i + 4\<close>, its end
  is \<open>start_position + orig_i + 3 + guide_length\<close>, its strand is \<open>'-'\<close> and its PAM is the
  three-symbol window of the reverse complement at \<open>rc_i\<close>.
\<close>

theorem minus_strand_guide_mapping:
  assumes "g \<in> set (extract_guides sq chrom sp gene pam_type gl af)"
    and "strand g = ''-''"
  shows "\<exists>rc_i \<in> set (find_pam_sites (reverse_complement (upper sq)) pam_type).
           (let orig_i = int (length sq) - rc_i - 3
            in start g = sp + orig_i + 4 \<and>
               end_pos g = sp + orig_i + 3 + gl \<and>
               pam g = py_slice (reverse_complement (upper sq)) rc_i (rc_i + 3))"
  using extract_guides_cases[OF assms(1)] assms(2) by (auto simp: Let_def)

theorem minus_strand_guide_mapping_witness:
  "hd (extract_guides ''CCATTTTTTTTTTTTTTTTTTTT'' ''chr1'' 1 None ''SpCas9'' 20 False)
     \<in> set (extract_guides ''CCATTTTTTTTTTTTTTTTTTTT'' ''chr1'' 1 None ''SpCas9'' 20 False) \<and>
   strand (hd (extract_guides ''CCATTTTTTTTTTTTTTTTTTTT'' ''chr1'' 1 None ''SpCas9'' 20 False)) = ''-'' \<and>
   (\<exists>rc_i \<in> set (find_pam_sites (reverse_complement (upper ''CCATTTTTTTTTTTTTTTTTTTT'')) ''SpCas9'').
      (let orig_i = int (length ''CCATTTTTTTTTTTTTTTTTTTT'') - rc_i - 3
       in start (hd (extract_guides ''CCATTTTTTTTTTTTTTTTTTTT'' ''chr1'' 1 None ''SpCas9'' 20 False))
            = 1 + orig_i + 4 \<and>
          end_pos (hd (extract_guides ''CCATTTTTTTTTTTTTTTTTTTT'' ''chr1'' 1 None ''SpCas9'' 20 False))
            = 1 + orig_i + 3 + 20 \<and>
          pam (hd (extract_guides ''CCATTTTTTTTTTTTTTTTTTTT'' ''chr1'' 1 None ''SpCas9'' 20 False))
            = py_slice (reverse_complement (upper ''CCATTTTTTTTTTTTTTTTTTTT'')) rc_i (rc_i + 3)))"
proof -
  let ?gs = "extract_guides ''CCATTTTTTTTTTTTTTTTTTTT'' ''chr1'' 1 None ''SpCas9'' 20 False"
  have "length ?gs = 1" by code_simp
  then have mem: "hd ?gs \<in> set ?gs" by (cases ?gs) auto
  have st: "strand (hd ?gs) = ''-''" by code_simp
  from minus_strand_guide_mapping[OF mem st] mem st show ?thesis by blast
qed

text \<open>
  Claim C4 (scenario A), as the code has it. On \<open>"A"*20 + "TGG" + "C"*10\<close> with
  \<open>start_position = 1\<close>, \<open>chromosome = "chr1"\<close> and guide length 20, the scan with the
  quality filters switched off returns exactly one guide: plus strand, sequence
  \<open>"A"*20\<close>, PAM \<open>"TGG"\<close>, start 1, end 20; there is no minus-strand guide.
\<close>

theorem scenario_A_unfiltered:
  "map (\<lambda>g. (sequence g, pam g, chromosome g, start g, end_pos g, strand g))
     (extract_guides ''AAAAAAAAAAAAAAAAAAAATGGCCCCCCCCCC'' ''chr1'' 1 None ''SpCas9'' 20 False)
   = [(''AAAAAAAAAAAAAAAAAAAA'', ''TGG'', ''chr1'', 1, 20, ''+'')]"
  by code_simp

text \<open>
  With the default filtering the same call returns no guide at all: the window
  \<open>"A"*20\<close> has GC content 0, below the default minimum of 40.
\<close>

theorem scenario_A_default_filters_empty:
  "extract_guides ''AAAAAAAAAAAAAAAAAAAATGGCCCCCCCCCC'' ''chr1'' 1 None ''SpCas9'' 20 True = []"
  by code_simp

text \<open>
  Claim C8. An input shorter than \<open>guide_length + 3\<close> yields the empty list, whatever the
  start position, chromosome, gene label, PAM type and filter setting; and so does an
  input on which neither scan finds a PAM motif. \<open>extract_guides\<close> has no raising
  operation (slices clamp, and a failed window is \<open>None\<close>), so its result is a plain list.
\<close>

theorem degenerate_input_yields_empty:
  "(int (length sq) < gl + 3 \<longrightarrow> extract_guides sq chrom sp gene pam_type gl af = []) \<and>
   (find_pam_sites sq pam_type = [] \<and>
    find_pam_sites (reverse_complement (upper sq)) pam_type = [] \<longrightarrow>
      extract_guides sq chrom sp gene pam_type gl af = [])"
proof (intro conjI impI)
  assume short: "int (length sq) < gl + 3"
  let ?s = "upper sq" and ?rc = "reverse_complement (upper sq)"
  have "\<forall>p \<in> set (find_pam_sites ?s pam_type). extract_guide_sequence ?s p gl ''+'' = None"
    using short by (auto intro: short_input_no_window simp del: find_pam_sites_upper)
  moreover
  have "\<forall>p \<in> set (find_pam_sites ?rc pam_type). extract_guide_sequence ?rc p gl ''+'' = None"
    using short by (auto intro: short_input_no_window)
  ultimately show "extract_guides sq chrom sp gene pam_type gl af = []"
    by (simp add: extract_guides_def Let_def plus_loop_no_window minus_loop_no_window
        del: find_pam_sites_upper)
next
  assume "find_pam_sites sq pam_type = [] \<and>
    find_pam_sites (reverse_complement (upper sq)) pam_type = []"
  then show "extract_guides sq chrom sp gene pam_type gl af = []"
    by (simp add: extract_guides_def Let_def)
qed

theorem degenerate_input_yields_empty_witness:
  "int (length ''ACGTAGGTCC'') < 20 + 3 \<and>
   extract_guides ''ACGTAGGTCC'' ''chr1'' 1 None ''SpCas9'' 20 True = [] \<and>
   find_pam_sites ''ACGTACGTAC'' ''SpCas9'' = [] \<and>
   find_pam_sites (reverse_complement (upper ''ACGTACGTAC'')) ''SpCas9'' = [] \<and>
   extract_guides ''ACGTACGTAC'' ''chr1'' 1 None ''SpCas9'' 4 False = []"
proof -
  have a: "int (length ''ACGTAGGTCC'') < 20 + 3" by simp
  have b: "find_pam_sites ''ACGTACGTAC'' ''SpCas9'' = []" by code_simp
  have c: "find_pam_sites (reverse_complement (upper ''ACGTACGTAC'')) ''SpCas9'' = []"
    by code_simp
  from degenerate_input_yields_empty[of "''ACGTAGGTCC''" 20 "''chr1''" 1 None "''SpCas9''" True] a
  have d: "extract_guides ''ACGTAGGTCC'' ''chr1'' 1 None ''SpCas9'' 20 True = []" by blast
  from degenerate_input_yields_empty[of "''ACGTACGTAC''" 4 "''chr1''" 1 None "''SpCas9''" False] b c
  have e: "extract_guides ''ACGTACGTAC'' ''chr1'' 1 None ''SpCas9'' 4 False = []" by blast
  from a b c d e show ?thesis by blast
qed

text \<open>
  Claim C9. Every guide returned by \<open>extract_guides\<close>, on either strand and for any
  guide length, spans exactly \<open>guide_length\<close> positions (\<open>end - start + 1 = guide_length\<close>),
  and its start is at least 1 whenever \<open>start_position\<close> is.
\<close>

theorem guide_interval_span:
  assumes "g \<in> set (extract_guides sq chrom sp gene pam_type gl af)"
  shows "end_pos g - start g + 1 = gl \<and> (1 \<le> sp \<longrightarrow> 1 \<le> start g)"
  using extract_guides_cases[OF assms]
proof
  assume "\<exists>p \<in> set (find_pam_sites sq pam_type).
            extract_guide_sequence (upper sq) p gl ''+'' = Some (sequence g) \<and>
            pam g = py_slice (upper sq) p (p + 3) \<and> chromosome g = chrom \<and>
            start g = sp + p - gl \<and> end_pos g = sp + p - 1 \<and> strand g = ''+''"
  then obtain p where ex: "extract_guide_sequence (upper sq) p gl ''+'' = Some (sequence g)"
    and c: "start g = sp + p - gl" "end_pos g = sp + p - 1" by blast
  from extract_guide_sequence_plus_Some[OF ex] have "0 \<le> p - gl" by simp
  with c show ?thesis by simp
next
  assume "\<exists>p \<in> set (find_pam_sites (reverse_complement (upper sq)) pam_type).
            extract_guide_sequence (reverse_complement (upper sq)) p gl ''+'' = Some (sequence g) \<and>
            pam g = py_slice (reverse_complement (upper sq)) p (p + 3) \<and> chromosome g = chrom \<and>
            start g = sp + (int (length sq) - p - 3) + 4 \<and>
            end_pos g = sp + (int (length sq) - p - 3) + 3 + gl \<and> strand g = ''-''"
  then obtain p where p: "p \<in> set (find_pam_sites (reverse_complement (upper sq)) pam_type)"
    and c: "start g = sp + (int (length sq) - p - 3) + 4"
           "end_pos g = sp + (int (length sq) - p - 3) + 3 + gl" by blast
  from find_pam_sites_bound[OF p] have "p + 3 \<le> int (length sq)" by simp
  with c show ?thesis by simp
qed

theorem guide_interval_span_witness:
  "hd (extract_guides ''ACGTACGTACGTACGTACGTAGGCCCGGGAAATTTGGG'' ''chr1'' 1 None ''SpCas9'' 20 False)
     \<in> set (extract_guides ''ACGTACGTACGTACGTACGTAGGCCCGGGAAATTTGGG'' ''chr1'' 1 None ''SpCas9'' 20 False) \<and>
   end_pos (hd (extract_guides ''ACGTACGTACGTACGTACGTAGGCCCGGGAAATTTGGG'' ''chr1'' 1 None ''SpCas9'' 20 False))
     - start (hd (extract_guides ''ACGTACGTACGTACGTACGTAGGCCCGGGAAATTTGGG'' ''chr1'' 1 None ''SpCas9'' 20 False))
     + 1 = 20 \<and>
   ((1::int) \<le> 1 \<and>
     1 \<le> start (hd (extract_guides ''ACGTACGTACGTACGTACGTAGGCCCGGGAAATTTGGG'' ''chr1'' 1 None ''SpCas9'' 20 False)))"
proof -
  let ?gs = "extract_guides ''ACGTACGTACGTACGTACGTAGGCCCGGGAAATTTGGG'' ''chr1'' 1 None ''SpCas9'' 20 False"
  have "length ?gs = 3" by code_simp
  then have mem: "hd ?gs \<in> set ?gs" by (cases ?gs) auto
  from guide_interval_span[OF mem] mem show ?thesis by simp
qed

section \<open>Properties of the quality filter\<close>

lemma sublist_replicate_shorter:
  assumes "sublist (replicate n b) s" and "m \<le> n"
  shows "sublist (replicate m b) s"
proof -
  from assms(2) have "replicate n b = replicate m b @ replicate (n - m) b"
    by (simp add: replicate_add [symmetric])
  then have "sublist (replicate m b) (replicate n b)" by (metis sublist_append_rightI)
  with assms(1) show ?thesis by (rule sublist_order.order_trans[rotated])
qed

lemma py_repeat_in_iff_run:
  "sublist (py_repeat base k) s \<longleftrightarrow> has_homopolymer_run base k s"
proof
  assume a: "sublist (py_repeat base k) s"
  then have "nat k \<le> length s" using sublist_length_le by (fastforce simp: py_repeat_def)
  with a show "has_homopolymer_run base k s"
    unfolding has_homopolymer_run_def py_repeat_def list_ex_iff
    by (intro bexI[of _ "nat k"]) auto
next
  assume "has_homopolymer_run base k s"
  then obtain n where "k \<le> int n" "sublist (replicate n base) s"
    by (auto simp: has_homopolymer_run_def list_ex_iff)
  then show "sublist (py_repeat base k) s"
    unfolding py_repeat_def by (auto intro: sublist_replicate_shorter[of n])
qed

text \<open>
  Claim C5. \<open>passes_quality_filters(min_gc, max_gc, max_homopolymer)\<close> is false exactly when
  the stored GC content lies outside \<open>[min_gc, max_gc]\<close>, or one of the bases A, T, G, C has a
  homopolymer run of length at least \<open>max_homopolymer\<close> in the sequence, or \<open>"TTTT"\<close> occurs
  in the sequence.
\<close>

theorem quality_filter_rejects_iff:
  "passes_quality_filters g min_gc max_gc max_homopolymer = False \<longleftrightarrow>
     gc_content g \<notin> {min_gc .. max_gc} \<or>
     (\<exists>base \<in> set ''ATGC''. has_homopolymer_run base max_homopolymer (sequence g)) \<or>
     sublist ''TTTT'' (sequence g)"
  unfolding passes_quality_filters_def list_ex_iff py_repeat_in_iff_run
  by (auto simp: not_le)

theorem quality_filter_rejects_iff_witness:
  "passes_quality_filters (calculate_gc_content (Guide ''GGAAGACTTTTTTGGTAATC'' ''TGG'' ''chr17'' 100 120 ''+'')) 40 60 4 = False
   \<and> passes_quality_filters (calculate_gc_content (Guide ''GGAAGACTCCAGTGGTAATC'' ''TGG'' ''chr17'' 100 120 ''+'')) 40 60 4 = True
   \<and> \<not> has_homopolymer_run CHR ''G'' 4 (sequence (calculate_gc_content (Guide ''GGAAGACTCCAGTGGTAATC'' ''TGG'' ''chr17'' 100 120 ''+'')))"
proof -
  let ?bad = "calculate_gc_content (Guide ''GGAAGACTTTTTTGGTAATC'' ''TGG'' ''chr17'' 100 120 ''+'')"
  let ?good = "calculate_gc_content (Guide ''GGAAGACTCCAGTGGTAATC'' ''TGG'' ''chr17'' 100 120 ''+'')"
  have t: "sublist ''TTTT'' (sequence ?bad)" by code_simp
  have a: "passes_quality_filters ?bad 40 60 4 = False"
    using quality_filter_rejects_iff[of ?bad 40 60 4] t by blast
  have b: "passes_quality_filters ?good 40 60 4 = True" by code_simp
  with quality_filter_rejects_iff[of ?good 40 60 4]
  have "\<not> (\<exists>base \<in> set ''ATGC''. has_homopolymer_run base 4 (sequence ?good))" by blast
  then have "\<not> has_homopolymer_run CHR ''G'' 4 (sequence ?good)" by simp
  with a b show ?thesis by blast
qed

section \<open>Properties of the efficiency estimator\<close>

lemma score_position_preferences_total:
  assumes "length s = 20"
  shows "\<exists>v. score_position_preferences s = Inr v"
proof -
  from assms have "py_index s 0 = Inr (s ! 0)" "py_index s 18 = Inr (s ! 18)"
    "py_index s 19 = Inr (s ! 19)"
    by (simp_all add: py_index_def)
  with assms show ?thesis
    by (simp add: score_position_preferences_def)
qed

lemma score_seed_region_total:
  assumes "seed \<noteq> []"
  shows "\<exists>v. score_seed_region seed = Inr v"
  using assms by (simp add: score_seed_region_def py_truediv_def Let_def)

lemma score_pam_proximal_total:
  assumes "p \<noteq> []"
  shows "\<exists>v. score_pam_proximal p = Inr v"
  using assms by (simp add: score_pam_proximal_def py_truediv_def Let_def)

lemma seed_of_20: "length s = 20 \<Longrightarrow> length (py_slice s 0 12) = 12"
  by (simp add: py_slice_def slice_index_def)

lemma proximal_of_20: "length s = 20 \<Longrightarrow> length (py_slice_from s (- 8)) = 8"
  by (simp add: py_slice_from_def slice_index_def)

text \<open>
  Claim C10. On a guide whose sequence has exactly 20 symbols, \<open>predict_efficiency\<close> returns
  a score: the reads at indices 0, 18 and 19 are in bounds, the seed (first 12 symbols) and
  the PAM-proximal region (last 8 symbols) are non-empty, so neither an \<open>IndexError\<close> nor a
  \<open>ZeroDivisionError\<close> is raised.
\<close>

theorem predict_efficiency_total:
  assumes "length (sequence g) = 20"
  shows "\<exists>v. predict_efficiency g = Inr v"
proof -
  from score_position_preferences_total[OF assms]
  obtain a where a: "score_position_preferences (sequence g) = Inr a" ..
  from seed_of_20[OF assms] have "py_slice (sequence g) 0 12 \<noteq> []" by auto
  from score_seed_region_total[OF this]
  obtain b where b: "score_seed_region (py_slice (sequence g) 0 12) = Inr b" ..
  from proximal_of_20[OF assms] have "py_slice_from (sequence g) (- 8) \<noteq> []" by auto
  from score_pam_proximal_total[OF this]
  obtain c where c: "score_pam_proximal (py_slice_from (sequence g) (- 8)) = Inr c" ..
  from assms have d: "py_index (sequence g) 19 = Inr (sequence g ! 19)"
    by (simp add: py_index_def)
  show ?thesis
    unfolding predict_efficiency_def Let_def a b c d by simp
qed

theorem predict_efficiency_total_witness:
  "length (sequence (Guide ''GGAAGACTCCAGTGGTAATC'' ''TGG'' ''chr17'' 100 119 ''+'')) = 20 \<and>
   (\<exists>v. predict_efficiency (Guide ''GGAAGACTCCAGTGGTAATC'' ''TGG'' ''chr17'' 100 119 ''+'') = Inr v)"
proof -
  have l: "length (sequence (Guide ''GGAAGACTCCAGTGGTAATC'' ''TGG'' ''chr17'' 100 119 ''+'')) = 20"
    by (simp add: Guide_def)
  from predict_efficiency_total[OF l] l show ?thesis by blast
qed










section \<open>Properties of the off-target estimator\<close>

lemma calculate_complexity_total:
  assumes "4 \<le> length s"
  shows "\<exists>cx. calculate_complexity s = Inr cx"
proof -
  from assms have "min (256::int) (int (length s) - 4 + 1) \<noteq> 0" by simp
  moreover from assms have "s \<noteq> []" by auto
  ultimately show ?thesis
    by (simp add: calculate_complexity_def py_truediv_def Let_def)
qed

lemma fill_counts_draws:
  assumes "\<forall>r. fst (randint (- 2) 2 r) \<in> {- 2 .. 2}"
  shows "\<exists>n1 \<in> {- 2 .. 2}. \<exists>n2 \<in> {- 2 .. 2}. \<exists>n3 \<in> {- 2 .. 2}.
           fst (fill_counts randint b1 b2 b3 off r) =
             off(1 \<mapsto> py_int (of_int (fst b1 + snd b1) / 2 + of_int n1),
                 2 \<mapsto> py_int (of_int (fst b2 + snd b2) / 2 + of_int n2),
                 3 \<mapsto> py_int (of_int (fst b3 + snd b3) / 2 + of_int n3))"
proof -
  obtain n1 r1 where d1: "randint (- 2) 2 r = (n1, r1)" by (cases "randint (- 2) 2 r")
  obtain n2 r2 where d2: "randint (- 2) 2 r1 = (n2, r2)" by (cases "randint (- 2) 2 r1")
  obtain n3 r3 where d3: "randint (- 2) 2 r2 = (n3, r3)" by (cases "randint (- 2) 2 r2")
  from assms d1 have i1: "n1 \<in> {- 2 .. 2}" by (metis fst_conv)
  from assms d2 have i2: "n2 \<in> {- 2 .. 2}" by (metis fst_conv)
  from assms d3 have i3: "n3 \<in> {- 2 .. 2}" by (metis fst_conv)
  have "fst (fill_counts randint b1 b2 b3 off r) =
             off(1 \<mapsto> py_int (of_int (fst b1 + snd b1) / 2 + of_int n1),
                 2 \<mapsto> py_int (of_int (fst b2 + snd b2) / 2 + of_int n2),
                 3 \<mapsto> py_int (of_int (fst b3 + snd b3) / 2 + of_int n3))"
    by (simp add: fill_counts_def estimate_count_def d1 d2 d3)
  with i1 i2 i3 show ?thesis by blast
qed

text \<open>
  Claim C6, as the code has it. For every guide whose sequence has at least 4 symbols, and
  a randomness source whose draws from \<open>randint(-2, 2)\<close> lie between -2 and 2,
  \<open>search_off_targets\<close> returns a mapping with exactly the keys 0, 1, 2, 3, whose value at 0
  is 1 and whose value at each of 1, 2, 3 is \<open>int((min + max) / 2 + noise)\<close>, truncated
  towards zero, for some noise between -2 and 2, with \<open>(min, max)\<close> the range of the
  complexity bucket.
\<close>

theorem off_target_counts:
  assumes len: "4 \<le> length (sequence g)"
    and rnd: "\<forall>r. fst (randint (- 2) 2 r) \<in> {- 2 .. 2}"
  shows "\<exists>m cx. fst (search_off_targets randint g r) = Inr m \<and>
           calculate_complexity (sequence g) = Inr cx \<and>
           dom m = {0, 1, 2, 3} \<and> m 0 = Some 1 \<and>
           (\<forall>k \<in> {1, 2, 3}. \<exists>noise \<in> {- 2 .. 2}.
              m k = Some (py_int (of_int (fst (spec_count_range cx k) + snd (spec_count_range cx k)) / 2
                                  + of_int noise)))"
proof -
  from calculate_complexity_total[OF len]
  obtain cx where cx: "calculate_complexity (sequence g) = Inr cx" ..
  let ?off = "[0 \<mapsto> 1, 1 \<mapsto> 0, 2 \<mapsto> 0, 3 \<mapsto> (0::int)] :: int \<rightharpoonup> int"
  let ?b1 = "spec_count_range cx 1" and ?b2 = "spec_count_range cx 2"
    and ?b3 = "spec_count_range cx 3"
  have res: "fst (search_off_targets randint g r) = Inr (fst (fill_counts randint ?b1 ?b2 ?b3 ?off r))"
    by (simp add: search_off_targets_def cx spec_count_range_def split_beta Let_def)
  from fill_counts_draws[where randint = randint, OF rnd, of ?b1 ?b2 ?b3 ?off r]
  obtain n1 n2 n3 where n: "n1 \<in> {- 2 .. 2}" "n2 \<in> {- 2 .. 2}" "n3 \<in> {- 2 .. 2}"
    and m: "fst (fill_counts randint ?b1 ?b2 ?b3 ?off r) =
             ?off(1 \<mapsto> py_int (of_int (fst ?b1 + snd ?b1) / 2 + of_int n1),
                  2 \<mapsto> py_int (of_int (fst ?b2 + snd ?b2) / 2 + of_int n2),
                  3 \<mapsto> py_int (of_int (fst ?b3 + snd ?b3) / 2 + of_int n3))"
    by blast
  let ?m = "fst (fill_counts randint ?b1 ?b2 ?b3 ?off r)"
  have dom: "dom ?m = {0, 1, 2, 3}" unfolding m by auto
  have m0: "?m 0 = Some 1" unfolding m by simp
  have m1: "?m 1 = Some (py_int (of_int (fst ?b1 + snd ?b1) / 2 + of_int n1))"
    unfolding m by simp
  have m2: "?m 2 = Some (py_int (of_int (fst ?b2 + snd ?b2) / 2 + of_int n2))"
    unfolding m by simp
  have m3: "?m 3 = Some (py_int (of_int (fst ?b3 + snd ?b3) / 2 + of_int n3))"
    unfolding m by simp
  from n m1 m2 m3
  have "\<forall>k \<in> {1, 2, 3}. \<exists>noise \<in> {- 2 .. 2}.
          ?m k = Some (py_int (of_int (fst (spec_count_range cx k) + snd (spec_count_range cx k)) / 2
                                  + of_int noise))"
    by blast
  with res cx dom m0 show ?thesis by blast
qed

text \<open>
  The claim as the specification states it fails twice. On a high-complexity 20-mer with
  the noise stubbed to 0 the 1-mismatch count is \<open>int(1.5 + 0) = 1\<close>, which is not
  \<open>(0 + 3) / 2 + noise\<close> for any integer noise between -2 and 2. And on a sequence of
  length 3 no mapping is returned: the division by the number of possible 4-mers raises
  \<open>ZeroDivisionError\<close>.
\<close>

theorem off_target_counts_not_midpoint_plus_noise:
  "\<not> isl (fst (search_off_targets (stub_randint 0)
              (Guide ''GGAAGACTCCAGTGGTAATC'' ''TGG'' ''chr17'' 100 119 ''+'') ())) \<and>
   calculate_complexity ''GGAAGACTCCAGTGGTAATC'' = Inr 1 \<and>
   projr (fst (search_off_targets (stub_randint 0)
            (Guide ''GGAAGACTCCAGTGGTAATC'' ''TGG'' ''chr17'' 100 119 ''+'') ())) 1 = Some 1 \<and>
   (1 :: rat) \<notin> {(0 + 3) / 2 + (- 2), (0 + 3) / 2 + (- 1), (0 + 3) / 2 + 0,
                  (0 + 3) / 2 + 1, (0 + 3) / 2 + 2} \<and>
   isl (fst (search_off_targets (stub_randint 0)
          (Guide ''ACG'' ''TGG'' ''chr17'' 100 102 ''+'') ())) \<and>
   projl (fst (search_off_targets (stub_randint 0)
            (Guide ''ACG'' ''TGG'' ''chr17'' 100 102 ''+'') ())) = ZeroDivisionError"
proof -
  let ?g = "Guide ''GGAAGACTCCAGTGGTAATC'' ''TGG'' ''chr17'' 100 119 ''+''"
  let ?h = "Guide ''ACG'' ''TGG'' ''chr17'' 100 102 ''+''"
  have a: "\<not> isl (fst (search_off_targets (stub_randint 0) ?g ()))" by code_simp
  have b: "calculate_complexity ''GGAAGACTCCAGTGGTAATC'' = Inr 1" by code_simp
  have c: "projr (fst (search_off_targets (stub_randint 0) ?g ())) 1 = Some 1" by code_simp
  have d: "(1 :: rat) \<notin> {(0 + 3) / 2 + (- 2), (0 + 3) / 2 + (- 1), (0 + 3) / 2 + 0,
                  (0 + 3) / 2 + 1, (0 + 3) / 2 + 2}" by simp
  have e: "isl (fst (search_off_targets (stub_randint 0) ?h ()))" by code_simp
  have f: "projl (fst (search_off_targets (stub_randint 0) ?h ())) = ZeroDivisionError"
    by code_simp
  from a b c d e f show ?thesis by blast
qed

theorem off_target_counts_witness:
  "4 \<le> length (sequence (Guide ''GGAAGACTCCAGTGGTAATC'' ''TGG'' ''chr17'' 100 119 ''+'')) \<and>
   (\<forall>r :: unit. fst (stub_randint 0 (- 2) 2 r) \<in> {- 2 .. 2}) \<and>
   (\<exists>m cx. fst (search_off_targets (stub_randint 0)
                   (Guide ''GGAAGACTCCAGTGGTAATC'' ''TGG'' ''chr17'' 100 119 ''+'') ()) = Inr m \<and>
           calculate_complexity (sequence (Guide ''GGAAGACTCCAGTGGTAATC'' ''TGG'' ''chr17'' 100 119 ''+''))
             = Inr cx \<and>
           dom m = {0, 1, 2, 3} \<and> m 0 = Some 1 \<and>
           (\<forall>k \<in> {1, 2, 3}. \<exists>noise \<in> {- 2 .. 2}.
              m k = Some (py_int (of_int (fst (spec_count_range cx k) + snd (spec_count_range cx k)) / 2
                                  + of_int noise))))"
proof -
  have len: "4 \<le> length (sequence (Guide ''GGAAGACTCCAGTGGTAATC'' ''TGG'' ''chr17'' 100 119 ''+''))"
    by (simp add: Guide_def)
  have rnd: "\<forall>r :: unit. fst (stub_randint 0 (- 2) 2 r) \<in> {- 2 .. 2}"
    by (simp add: stub_randint_def)
  from off_target_counts[where randint = "stub_randint 0" and r = "()", OF len rnd] len rnd
  show ?thesis by blast
qed

text \<open>
  Claim C7. With the randomness source stubbed to a fixed value \<open>c\<close>, the result of
  \<open>search_off_targets\<close> depends on the guide's sequence only: two guides with the same
  sequence get the same answer whatever the generator states are, and two calls in a row
  on one guide, the second starting from the state the first left, return the same answer.
\<close>

theorem stubbed_search_off_targets_deterministic:
  "fst (search_off_targets (stub_randint c) (g\<lparr>sequence := s\<rparr>) r1)
     = fst (search_off_targets (stub_randint c) (g'\<lparr>sequence := s\<rparr>) r2) \<and>
   (let (m1, r') = search_off_targets (stub_randint c) g r;
        (m2, r'') = search_off_targets (stub_randint c) g r'
    in m1 = m2)"
  by (auto simp: search_off_targets_def fill_counts_def estimate_count_def stub_randint_def
      Let_def split: sum.splits prod.splits)

section \<open>Properties of the ranker\<close>

lemma triple_le_iff:
  "(a, b, c) \<le> (a', b', c') \<longleftrightarrow> a < a' \<or> (a = a' \<and> (b < b' \<or> (b = b' \<and> c \<le> c')))"
  for a a' :: rat and b b' c c' :: int
  by (auto simp: less_eq_prod_def)

text \<open>
  Claim C3. \<open>rank_guides\<close> returns a permutation of its input, sorted ascending on the
  tuple \<open>(-efficiency_score, off_targets[0] + off_targets[1] + off_targets[2], start)\<close>
  (a missing entry of \<open>off_targets\<close> counting as 0, as \<open>dict.get\<close> reads it); the sort is
  stable, so guides with equal keys keep their input order; and ranking an already ranked
  list changes nothing. As a function of its argument, \<open>rank_guides\<close> gives the same order
  on every call.
\<close>

theorem rank_guides_sorted_stable:
  "mset (rank_guides gs) = mset gs \<and>
   sorted (map (\<lambda>g. (- efficiency_score g,
                      dict_get (off_targets g) 0 0 + dict_get (off_targets g) 1 0
                        + dict_get (off_targets g) 2 0,
                      start g)) (rank_guides gs)) \<and>
   (\<forall>k. filter (\<lambda>g. rank_sort_key g = k) (rank_guides gs) = filter (\<lambda>g. rank_sort_key g = k) gs) \<and>
   rank_guides (rank_guides gs) = rank_guides gs"
proof -
  have key: "(\<lambda>g. (- efficiency_score g,
                      dict_get (off_targets g) 0 0 + dict_get (off_targets g) 1 0
                        + dict_get (off_targets g) 2 0,
                      start g)) = rank_sort_key"
    by (rule ext) (simp add: rank_sort_key_def)
  have s: "sorted (map rank_sort_key (rank_guides gs))"
    by (simp add: rank_guides_def)
  from s have "rank_guides (rank_guides gs) = rank_guides gs"
    unfolding rank_guides_def by (rule sort_key_id_if_sorted)
  with s show ?thesis
    unfolding key by (simp add: rank_guides_def sort_key_stable)
qed

end
